theory Spec2Isabelle
  imports
    Complex_Main
    "HOL-Library.Char_ord"
    "HOL-Library.List_Lexorder"
    "HOL-Library.Sublist"
    "HOL-Library.Multiset"
begin

section \<open>Values of the host language\<close>

text \<open>
  A JavaScript \<^verbatim>\<open>number\<close> as the program can meet it: a finite double, which is a
  rational (comparison and \<^verbatim>\<open>Math.round\<close> are exact on them), or one of the two
  infinities, which \<^verbatim>\<open>JSON.parse\<close> returns for a number beyond the range of a double
  (\<^verbatim>\<open>1e999\<close>). JSON text and the number inputs of the page cannot produce \<^verbatim>\<open>NaN\<close>, and
  the program computes none, so \<^verbatim>\<open>NaN\<close> is outside the model; the negative zero is
  identified with zero, as \<^verbatim>\<open>===\<close> does. A string is a list of code units; the model is
  exact for code units below 256.
\<close>

datatype number = Fin rat | PInf | NInf

text \<open>The order of the numbers, as \<^verbatim>\<open><\<close> and \<^verbatim>\<open>>=\<close> compare them.\<close>

instantiation number :: linorder
begin

fun less_eq_number :: "number \<Rightarrow> number \<Rightarrow> bool" where
  "less_eq_number NInf y = True"
| "less_eq_number (Fin a) NInf = False"
| "less_eq_number (Fin a) (Fin b) = (a \<le> b)"
| "less_eq_number (Fin a) PInf = True"
| "less_eq_number PInf PInf = True"
| "less_eq_number PInf y = False"

definition less_number :: "number \<Rightarrow> number \<Rightarrow> bool" where
  "less_number x y = (x \<le> y \<and> \<not> y \<le> x)"

instance
proof
  fix x y z :: number
  show "(x < y) = (x \<le> y \<and> \<not> y \<le> x)"
    by (simp add: less_number_def)
  show "x \<le> x"
    by (cases x) simp_all
  show "x \<le> y \<Longrightarrow> y \<le> z \<Longrightarrow> x \<le> z"
    by (cases x; cases y; cases z) simp_all
  show "x \<le> y \<Longrightarrow> y \<le> x \<Longrightarrow> x = y"
    by (cases x; cases y) simp_all
  show "x \<le> y \<or> y \<le> x"
    by (cases x; cases y) auto
qed

end

text \<open>
  \<^verbatim>\<open>Math.round(x)\<close>: the nearest integer for a finite number, a tie going towards plus
  infinity; an infinity is returned as it is.
\<close>

definition Math_round :: "number \<Rightarrow> number" where
  "Math_round x = (case x of Fin q \<Rightarrow> Fin (of_int \<lfloor>q + 1 / 2\<rfloor>) | PInf \<Rightarrow> PInf | NInf \<Rightarrow> NInf)"

text \<open>
  The number a comparison sees where a field holds a number or \<^verbatim>\<open>null\<close> (\<open>None\<close>):
  \<^verbatim>\<open>null\<close> counts as 0.
\<close>

definition toNumber :: "number option \<Rightarrow> number" where
  "toNumber v = (case v of None \<Rightarrow> Fin 0 | Some x \<Rightarrow> x)"

text \<open>
  \<^verbatim>\<open>a || d\<close> at the three types where the source uses it. The left operand may be
  \<^verbatim>\<open>undefined\<close> (\<open>None\<close>); the falsy values are \<^verbatim>\<open>undefined\<close>, \<^verbatim>\<open>0\<close>, \<^verbatim>\<open>""\<close> and
  \<^verbatim>\<open>false\<close>.
\<close>

definition or_num :: "number option \<Rightarrow> number \<Rightarrow> number" where
  "or_num a d = (case a of None \<Rightarrow> d | Some x \<Rightarrow> if x = Fin 0 then d else x)"

definition or_str :: "string option \<Rightarrow> string \<Rightarrow> string" where
  "or_str a d = (case a of None \<Rightarrow> d | Some s \<Rightarrow> if s = [] then d else s)"

definition or_bool :: "bool option \<Rightarrow> bool \<Rightarrow> bool" where
  "or_bool a d = (case a of None \<Rightarrow> d | Some b \<Rightarrow> if b then b else d)"

text \<open>
  The \<^verbatim>\<open>ID\<close> of a feed record: a whole number, or an infinity when the feed's number
  is beyond the range of a double. \<^verbatim>\<open>String(n)\<close> gives the decimal digits of a whole
  number, with a minus sign for a negative one, and \<^verbatim>\<open>"Infinity"\<close> or \<^verbatim>\<open>"-Infinity"\<close>.
  (JavaScript switches to exponent notation from \<open>10\<^sup>2\<^sup>1\<close> on; whole identifiers of
  that size are outside the model.)
\<close>

datatype id_number = Whole int | PlusInfinity | MinusInfinity

definition digit_char :: "nat \<Rightarrow> char" where
  "digit_char d = char_of (48 + d)"

fun digits :: "nat \<Rightarrow> string" where
  "digits n = (if n < 10 then [digit_char n] else digits (n div 10) @ [digit_char (n mod 10)])"

declare digits.simps [simp del]

definition String_int :: "int \<Rightarrow> string" where
  "String_int i = (if i < 0 then CHR ''-'' # digits (nat (- i)) else digits (nat i))"

definition String_num :: "id_number \<Rightarrow> string" where
  "String_num n =
     (case n of Whole i \<Rightarrow> String_int i | PlusInfinity \<Rightarrow> ''Infinity'' | MinusInfinity \<Rightarrow> ''-Infinity'')"

text \<open>
  \<^verbatim>\<open>s.toLowerCase()\<close> on code units below 256: the letters A to Z and the Latin-1
  capitals (0xC0 to 0xDE without the multiplication sign 0xD7) move up by 32.
\<close>

definition lower_char :: "char \<Rightarrow> char" where
  "lower_char c =
     (let n = (of_char c :: nat)
      in if (65 \<le> n \<and> n \<le> 90) \<or> (192 \<le> n \<and> n \<le> 222 \<and> n \<noteq> 215)
         then char_of (n + 32) else c)"

definition toLowerCase :: "string \<Rightarrow> string" where
  "toLowerCase s = map lower_char s"

text \<open>\<^verbatim>\<open>s.includes(q)\<close>: \<open>q\<close> occurs in \<open>s\<close> as a contiguous run (always, when \<open>q\<close> is empty).\<close>

fun includes_s :: "string \<Rightarrow> string \<Rightarrow> bool" where
  "includes_s [] q = (q = [])"
| "includes_s (c # s) q = (prefix q (c # s) \<or> includes_s s q)"


section \<open>Types of the tracker\<close>

text \<open>
  \<^verbatim>\<open>type Problem\<close>, a record of the list in memory. The fields \<^verbatim>\<open>id\<close> and \<^verbatim>\<open>notes\<close> are
  \<open>id_p\<close> and \<open>notes_p\<close> here. The rating is a number or, in a list that was read back
  from the store, \<^verbatim>\<open>null\<close> (\<open>None\<close>): \<^verbatim>\<open>JSON.stringify\<close> writes \<^verbatim>\<open>null\<close> for an infinity.
\<close>

record Problem =
  id_p :: string
  title :: string
  slug :: string
  rating :: "number option"
  contest :: string
  difficulty :: string
  solved :: bool
  starred :: bool
  notes_p :: string
  tc :: string
  sc :: string

text \<open>\<^verbatim>\<open>type RawItem\<close>; an optional field is an \<open>option\<close>.\<close>

record RawItem =
  ID :: id_number
  Title :: string
  TitleSlug :: string
  Rating :: "number option"
  ContestID_en :: "string option"
  ProblemIndex :: "string option"


section \<open>Difficulty inference\<close>

definition inferDifficulty :: "string option \<Rightarrow> string" where
  "inferDifficulty idx =
     (if idx = Some ''Q1'' then ''Easy''
      else if or_str idx [] \<in> set [''Q3'', ''Q4'', ''Q5''] then ''Hard''
      else ''Medium'')"


section \<open>Local store\<close>

text \<open>
  The string kept under \<^verbatim>\<open>STORAGE_KEY\<close>, told apart by what the program observes of it.
  The text layer of JSON belongs to the runtime and is not modelled.
  \<^item> \<open>None\<close>: no entry (\<^verbatim>\<open>null\<close>), or the empty string; both are falsy.
  \<^item> \<open>Garbage\<close>: a string that \<^verbatim>\<open>JSON.parse\<close> rejects.
  \<^item> \<open>NullText\<close>: the text \<^verbatim>\<open>null\<close>, on whose value a property read throws.
  \<^item> \<open>Current ps\<close>: a snapshot \<^verbatim>\<open>{version: DATA_VERSION, data}\<close> as this version of the
    program writes it: \<^verbatim>\<open>parsed.version === DATA_VERSION\<close> holds and \<^verbatim>\<open>data\<close> is the array
    \<open>ps\<close> of full records.
  \<^item> \<open>Other d\<close>: any other JSON value, where \<^verbatim>\<open>parsed.version === DATA_VERSION\<close> fails:
    a snapshot of another version, an object without a version, a number, a string.
    \<open>d\<close> is what \<^verbatim>\<open>fetchAndMerge\<close> finds as its \<^verbatim>\<open>data\<close>.
  The version constant is 1; the model needs the outcome of the comparison only.
\<close>

text \<open>
  A stored record as the merge reads it: \<^verbatim>\<open>p.id\<close> as a key, and the five user-owned
  fields through \<^verbatim>\<open>old?.f || default\<close>. For \<open>id_s\<close>, \<open>None\<close> is a missing identifier or
  one that is no string: no key \<^verbatim>\<open>String(r.ID)\<close> finds it. For a user-owned field,
  \<open>None\<close> is a missing field, or one that holds \<^verbatim>\<open>null\<close> or another falsy value:
  \<^verbatim>\<open>||\<close> gives the default for all of them. A user-owned field with a truthy value has
  the type the program gives it (a boolean, a string); truthy values of another type
  are outside the model. The other fields of a stored record are never read.
\<close>

record saved_rec =
  id_s :: "string option"
  solved_s :: "bool option"
  starred_s :: "bool option"
  notes_s :: "string option"
  tc_s :: "string option"
  sc_s :: "string option"

text \<open>
  An element of a stored array: \<^verbatim>\<open>null\<close>, or anything else (an object; a number, a
  string or an array is a record without fields).
\<close>

datatype elem = NullElem | Rec saved_rec

text \<open>
  \<^verbatim>\<open>parsed.data\<close> of a value of another version: missing or falsy; truthy and no
  array; an array.
\<close>

datatype stored_data = NoData | NoArray | Elems "elem list"

datatype item = Garbage | NullText | Current "Problem list" | Other stored_data

type_synonym storage = "item option"

datatype error =
    SyntaxError   \<comment> \<open>\<^verbatim>\<open>JSON.parse\<close> on a string that is not JSON\<close>
  | TypeError     \<comment> \<open>a property read on \<^verbatim>\<open>null\<close>, or a call of something that is no function\<close>
  | FetchError    \<comment> \<open>\<^verbatim>\<open>fetch\<close> or \<^verbatim>\<open>res.json()\<close> rejected\<close>

text \<open>
  What \<^verbatim>\<open>JSON.parse(JSON.stringify(p))\<close> returns for a record: strings, booleans and
  finite numbers come back as they are, an infinity comes back as \<^verbatim>\<open>null\<close>.
\<close>

definition jsonNumber :: "number option \<Rightarrow> number option" where
  "jsonNumber v = (case v of Some (Fin q) \<Rightarrow> Some (Fin q) | _ \<Rightarrow> None)"

definition jsonProblem :: "Problem \<Rightarrow> Problem" where
  "jsonProblem p = p\<lparr> rating := jsonNumber (rating p) \<rparr>"

text \<open>
  \<^verbatim>\<open>persist(data)\<close>: the new content of the store, the text of
  \<^verbatim>\<open>{version: DATA_VERSION, data}\<close>.
\<close>

definition persist :: "Problem list \<Rightarrow> storage" where
  "persist data = Some (Current (map jsonProblem data))"

text \<open>A full record as the merge reads it.\<close>

definition asSaved :: "Problem \<Rightarrow> saved_rec" where
  "asSaved p =
     \<lparr> id_s = Some (id_p p), solved_s = Some (solved p), starred_s = Some (starred p),
       notes_s = Some (notes_p p), tc_s = Some (tc p), sc_s = Some (sc p) \<rparr>"

text \<open>The records of a stored array; \<open>None\<close> when an element is \<^verbatim>\<open>null\<close>.\<close>

fun recsOf :: "elem list \<Rightarrow> saved_rec list option" where
  "recsOf [] = Some []"
| "recsOf (NullElem # es) = None"
| "recsOf (Rec r # es) = map_option ((#) r) (recsOf es)"

text \<open>
  \<^verbatim>\<open>JSON.parse(localStorage.getItem(STORAGE_KEY) || "{}")?.data || []\<close>, followed by the
  first use of the result, \<^verbatim>\<open>saved.map((p) => [p.id, p])\<close>: that call throws when the value
  is no array, and \<^verbatim>\<open>p.id\<close> throws on a \<^verbatim>\<open>null\<close> element. The version is not looked
  at, and no shape is checked.
\<close>

definition readSaved :: "storage \<Rightarrow> error + saved_rec list" where
  "readSaved st =
     (case st of
        None \<Rightarrow> Inr []
      | Some Garbage \<Rightarrow> Inl SyntaxError
      | Some NullText \<Rightarrow> Inr []
      | Some (Current ps) \<Rightarrow> Inr (map asSaved ps)
      | Some (Other NoData) \<Rightarrow> Inr []
      | Some (Other NoArray) \<Rightarrow> Inl TypeError
      | Some (Other (Elems es)) \<Rightarrow>
          (case recsOf es of None \<Rightarrow> Inl TypeError | Some rs \<Rightarrow> Inr rs))"


section \<open>Dataset merge\<close>

text \<open>
  \<^verbatim>\<open>new Map(saved.map((p) => [p.id, p]))\<close>: the entries are set one after the other, so
  a later record replaces an earlier one with the same identifier. An entry whose key
  is no string is never found by \<^verbatim>\<open>savedMap.get(String(r.ID))\<close> and is left out.
\<close>

definition savedMap :: "saved_rec list \<Rightarrow> string \<rightharpoonup> saved_rec" where
  "savedMap saved =
     fold (\<lambda>p m. case id_s p of None \<Rightarrow> m | Some k \<Rightarrow> m(k \<mapsto> p)) saved Map.empty"

text \<open>
  The body of \<^verbatim>\<open>raw.map((r) => ...)\<close> in \<^verbatim>\<open>fetchAndMerge\<close>. \<^verbatim>\<open>old?.solved\<close> is
  \<^verbatim>\<open>undefined\<close> when there is no old record and when the old record has no such field.
\<close>

definition mergeOne :: "(string \<rightharpoonup> saved_rec) \<Rightarrow> RawItem \<Rightarrow> Problem" where
  "mergeOne m r =
     (let old = m (String_num (ID r))
      in \<lparr> id_p = String_num (ID r),
           title = Title r,
           slug = TitleSlug r,
           rating = Some (Math_round (or_num (Rating r) (Fin 0))),
           contest = or_str (ContestID_en r) [],
           difficulty = inferDifficulty (ProblemIndex r),
           solved = or_bool (Option.bind old solved_s) False,
           starred = or_bool (Option.bind old starred_s) False,
           notes_p = or_str (Option.bind old notes_s) [],
           tc = or_str (Option.bind old tc_s) [],
           sc = or_str (Option.bind old sc_s) [] \<rparr>)"

definition merge :: "saved_rec list \<Rightarrow> RawItem list \<Rightarrow> Problem list" where
  "merge saved raw = map (mergeOne (savedMap saved)) raw"


section \<open>Component state\<close>

text \<open>
  The \<^verbatim>\<open>useState\<close> cells of \<^verbatim>\<open>LeetCodeTracker\<close>, with the store beside them. The filter
  fields carry the suffix \<open>_f\<close>, the cell \<^verbatim>\<open>sort\<close> is \<open>sort_st\<close>.
\<close>

record filter_state =
  min_f :: number
  max_f :: number
  query_f :: string
  solved_f :: bool
  starred_f :: bool

text \<open>\<^verbatim>\<open>keyof Problem\<close>.\<close>

datatype key =
  K_id | K_title | K_slug | K_rating | K_contest | K_difficulty
  | K_solved | K_starred | K_notes | K_tc | K_sc

datatype dir = asc | desc

record sort_spec =
  key :: "key option"
  dir :: dir

record state =
  storage :: storage
  allProblems :: "Problem list"
  visible :: "Problem list"
  loading :: bool
  filters :: filter_state
  sort_st :: sort_spec
  page :: int
  pageSize :: nat

definition initial :: "storage \<Rightarrow> state" where
  "initial st =
     \<lparr> storage = st, allProblems = [], visible = [], loading = True,
       filters =
         \<lparr> min_f = Fin 0, max_f = Fin 3500, query_f = [], solved_f = False, starred_f = False \<rparr>,
       sort_st = \<lparr> key = None, dir = asc \<rparr>,
       page = 1, pageSize = 25 \<rparr>"


section \<open>Loading\<close>

text \<open>
  \<^verbatim>\<open>fetchAndMerge\<close>. The outcome of the network request is an argument: \<open>None\<close> when
  \<^verbatim>\<open>fetch\<close> or \<^verbatim>\<open>res.json()\<close> rejects. The request comes first, the store is read
  after it. \<open>Inl\<close> is the rejected promise: no cell and no store entry was written.
  (A write to the store is taken to succeed.)
\<close>

definition fetchAndMerge :: "RawItem list option \<Rightarrow> state \<Rightarrow> error + state" where
  "fetchAndMerge net s =
     (case net of
        None \<Rightarrow> Inl FetchError
      | Some raw \<Rightarrow>
          (case readSaved (storage s) of
             Inl e \<Rightarrow> Inl e
           | Inr saved \<Rightarrow>
               (let merged = merge saved raw
                in Inr (s\<lparr> storage := persist merged, allProblems := merged, loading := False \<rparr>))))"

text \<open>
  \<^verbatim>\<open>loadData\<close>. The \<^verbatim>\<open>try\<close> block covers the read of the cache and the first call of
  \<^verbatim>\<open>fetchAndMerge\<close>; whatever is thrown there leads to the \<^verbatim>\<open>catch\<close> block, which calls
  \<^verbatim>\<open>fetchAndMerge\<close> once more, outside any handler. \<open>net1\<close> and \<open>net2\<close> are the outcomes
  of the first and of the second network request. With a snapshot of the current
  version the stored \<^verbatim>\<open>data\<close> is published as it is.
\<close>

definition tryFetch :: "RawItem list option \<Rightarrow> RawItem list option \<Rightarrow> state \<Rightarrow> error + state" where
  "tryFetch net1 net2 s =
     (case fetchAndMerge net1 s of Inl e \<Rightarrow> fetchAndMerge net2 s | Inr s' \<Rightarrow> Inr s')"

definition loadData :: "RawItem list option \<Rightarrow> RawItem list option \<Rightarrow> state \<Rightarrow> error + state" where
  "loadData net1 net2 s =
     (case storage s of
        None \<Rightarrow> tryFetch net1 net2 s
      | Some Garbage \<Rightarrow> fetchAndMerge net1 s
      | Some NullText \<Rightarrow> fetchAndMerge net1 s
      | Some (Current ps) \<Rightarrow> Inr (s\<lparr> allProblems := ps, loading := False \<rparr>)
      | Some (Other d) \<Rightarrow> tryFetch net1 net2 s)"


section \<open>View pipeline\<close>

text \<open>
  The filter stage of the effect (the statements before \<^verbatim>\<open>if (sort.key)\<close>). In
  \<^verbatim>\<open>p.rating >= filters.min\<close> a rating \<^verbatim>\<open>null\<close> counts as 0.
\<close>

definition filterStage :: "filter_state \<Rightarrow> Problem list \<Rightarrow> Problem list" where
  "filterStage fs ps =
     (let l1 = filter (\<lambda>p. toNumber (rating p) \<ge> min_f fs \<and> toNumber (rating p) \<le> max_f fs) ps;
          l2 = (if solved_f fs then filter (\<lambda>p. solved p) l1 else l1);
          l3 = (if starred_f fs then filter (\<lambda>p. starred p) l2 else l2)
      in if query_f fs \<noteq> []
         then (let q = toLowerCase (query_f fs)
               in filter (\<lambda>p. includes_s (toLowerCase (title p)) q \<or> includes_s (id_p p) q) l3)
         else l3)"

text \<open>
  \<^verbatim>\<open>map[String(A)] ?? 0\<close> with \<^verbatim>\<open>map = { Easy: 1, Medium: 2, Hard: 3 }\<close>. (A label that
  names a property every object inherits, such as \<^verbatim>\<open>constructor\<close>, is outside the model.)
\<close>

definition difficultyRank :: "string \<Rightarrow> rat" where
  "difficultyRank d =
     (if d = ''Easy'' then 1 else if d = ''Medium'' then 2 else if d = ''Hard'' then 3 else 0)"

text \<open>
  The last three statements of the comparator, at the type of the two operands. On
  strings \<open><\<close> is the order of the code unit sequences, on booleans \<open>False < True\<close>.
\<close>

definition threeWay :: "dir \<Rightarrow> 'a::linorder \<Rightarrow> 'a \<Rightarrow> int" where
  "threeWay d A B =
     (if A < B then (if d = asc then - 1 else 1)
      else if A > B then (if d = asc then 1 else - 1)
      else 0)"

text \<open>
  The comparator for a set key: \<^verbatim>\<open>a[sort.key]\<close> and \<^verbatim>\<open>b[sort.key]\<close> have the type of the
  field, so the comparison is written out field by field.
\<close>

definition comparator :: "key \<Rightarrow> dir \<Rightarrow> Problem \<Rightarrow> Problem \<Rightarrow> int" where
  "comparator k d a b =
     (case k of
        K_id \<Rightarrow> threeWay d (id_p a) (id_p b)
      | K_title \<Rightarrow> threeWay d (title a) (title b)
      | K_slug \<Rightarrow> threeWay d (slug a) (slug b)
      | K_rating \<Rightarrow> threeWay d (toNumber (rating a)) (toNumber (rating b))
      | K_contest \<Rightarrow> threeWay d (contest a) (contest b)
      | K_difficulty \<Rightarrow> threeWay d (difficultyRank (difficulty a)) (difficultyRank (difficulty b))
      | K_solved \<Rightarrow> threeWay d (solved a) (solved b)
      | K_starred \<Rightarrow> threeWay d (starred a) (starred b)
      | K_notes \<Rightarrow> threeWay d (notes_p a) (notes_p b)
      | K_tc \<Rightarrow> threeWay d (tc a) (tc b)
      | K_sc \<Rightarrow> threeWay d (sc a) (sc b))"

text \<open>
  \<^verbatim>\<open>list.sort(cmp)\<close>. The language fixes the result for a comparator that is a
  consistent three-way comparison: the elements in an order the comparator agrees with,
  those it calls equal in their order of before (the sort is stable). Insertion from
  the right, in front of the first element that is not smaller, is such a sort.
\<close>

fun insertBy :: "('a \<Rightarrow> 'a \<Rightarrow> int) \<Rightarrow> 'a \<Rightarrow> 'a list \<Rightarrow> 'a list" where
  "insertBy c x [] = [x]"
| "insertBy c x (y # ys) = (if c x y \<le> 0 then x # y # ys else y # insertBy c x ys)"

definition sortBy :: "('a \<Rightarrow> 'a \<Rightarrow> int) \<Rightarrow> 'a list \<Rightarrow> 'a list" where
  "sortBy c xs = foldr (insertBy c) xs []"

definition sortStage :: "sort_spec \<Rightarrow> Problem list \<Rightarrow> Problem list" where
  "sortStage sp l = (case key sp of None \<Rightarrow> l | Some k \<Rightarrow> sortBy (comparator k (dir sp)) l)"

text \<open>The whole effect: it runs when \<^verbatim>\<open>filters\<close>, \<^verbatim>\<open>allProblems\<close> or \<^verbatim>\<open>sort\<close> changed.\<close>

definition effect :: "state \<Rightarrow> state" where
  "effect s =
     s\<lparr> visible := sortStage (sort_st s) (filterStage (filters s) (allProblems s)), page := 1 \<rparr>"

text \<open>The mount: \<^verbatim>\<open>loadData\<close> from the initial cells, then the effect on the new list.\<close>

definition boot :: "RawItem list option \<Rightarrow> RawItem list option \<Rightarrow> storage \<Rightarrow> error + state" where
  "boot net1 net2 st =
     (case loadData net1 net2 (initial st) of Inl e \<Rightarrow> Inl e | Inr s \<Rightarrow> Inr (effect s))"


section \<open>Mutation\<close>

text \<open>
  \<^verbatim>\<open>Partial<Problem>\<close>: every field optional (suffix \<open>_u\<close>); \<open>None\<close> is a field the patch
  does not name.
\<close>

record patch =
  id_u :: "string option"
  title_u :: "string option"
  slug_u :: "string option"
  rating_u :: "number option option"
  contest_u :: "string option"
  difficulty_u :: "string option"
  solved_u :: "bool option"
  starred_u :: "bool option"
  notes_u :: "string option"
  tc_u :: "string option"
  sc_u :: "string option"

text \<open>\<^verbatim>\<open>{ ...p, ...patch }\<close>.\<close>

definition spread :: "Problem \<Rightarrow> patch \<Rightarrow> Problem" where
  "spread p u =
     \<lparr> id_p = (case id_u u of None \<Rightarrow> id_p p | Some v \<Rightarrow> v),
       title = (case title_u u of None \<Rightarrow> title p | Some v \<Rightarrow> v),
       slug = (case slug_u u of None \<Rightarrow> slug p | Some v \<Rightarrow> v),
       rating = (case rating_u u of None \<Rightarrow> rating p | Some v \<Rightarrow> v),
       contest = (case contest_u u of None \<Rightarrow> contest p | Some v \<Rightarrow> v),
       difficulty = (case difficulty_u u of None \<Rightarrow> difficulty p | Some v \<Rightarrow> v),
       solved = (case solved_u u of None \<Rightarrow> solved p | Some v \<Rightarrow> v),
       starred = (case starred_u u of None \<Rightarrow> starred p | Some v \<Rightarrow> v),
       notes_p = (case notes_u u of None \<Rightarrow> notes_p p | Some v \<Rightarrow> v),
       tc = (case tc_u u of None \<Rightarrow> tc p | Some v \<Rightarrow> v),
       sc = (case sc_u u of None \<Rightarrow> sc p | Some v \<Rightarrow> v) \<rparr>"

definition updateList :: "string \<Rightarrow> patch \<Rightarrow> Problem list \<Rightarrow> Problem list" where
  "updateList i u ps = map (\<lambda>p. if id_p p = i then spread p u else p) ps"

definition update :: "string \<Rightarrow> patch \<Rightarrow> state \<Rightarrow> state" where
  "update i u s =
     (let next = updateList i u (allProblems s)
      in s\<lparr> allProblems := next, storage := persist next \<rparr>)"


section \<open>Pagination\<close>

text \<open>\<^verbatim>\<open>Math.ceil(visible.length / pageSize)\<close>.\<close>

definition pages :: "state \<Rightarrow> int" where
  "pages s = \<lceil>(of_nat (length (visible s)) :: rat) / of_nat (pageSize s)\<rceil>"

text \<open>\<^verbatim>\<open>xs.slice(a, b)\<close>; a negative index counts from the end.\<close>

definition js_slice :: "'a list \<Rightarrow> int \<Rightarrow> int \<Rightarrow> 'a list" where
  "js_slice xs a b =
     (let n = int (length xs);
          from = (if a < 0 then max (n + a) 0 else min a n);
          to = (if b < 0 then max (n + b) 0 else min b n)
      in take (nat (to - from)) (drop (nat from) xs))"

definition slice :: "state \<Rightarrow> Problem list" where
  "slice s =
     (let st = (page s - 1) * int (pageSize s)
      in js_slice (visible s) st (st + int (pageSize s)))"


section \<open>User events\<close>

text \<open>The three entries of the page size selector.\<close>

datatype size_option = Opt25 | Opt50 | Opt100

definition optionValue :: "size_option \<Rightarrow> nat" where
  "optionValue opt = (case opt of Opt25 \<Rightarrow> 25 | Opt50 \<Rightarrow> 50 | Opt100 \<Rightarrow> 100)"

datatype event =
    SetFilters filter_state
  | ToggleSort key
  | Update string patch
  | SelectPageSize size_option
  | First
  | Prev
  | Next
  | Last

text \<open>
  One event. \<open>None\<close>: the control is not there (while loading only the banner is
  rendered; the pager is rendered for more than one page only) or it is disabled.
  A change of \<^verbatim>\<open>filters\<close>, \<^verbatim>\<open>sort\<close> or \<^verbatim>\<open>allProblems\<close> is followed by the effect; the
  page size is no dependency of the effect.
\<close>

definition step :: "event \<Rightarrow> state \<Rightarrow> state option" where
  "step e s =
     (if loading s then None
      else case e of
        SetFilters f \<Rightarrow> Some (effect (s\<lparr> filters := f \<rparr>))
      | ToggleSort k \<Rightarrow>
          Some (effect (s\<lparr> sort_st :=
            \<lparr> key = Some k,
              dir = (if key (sort_st s) = Some k \<and> dir (sort_st s) = asc then desc else asc) \<rparr> \<rparr>))
      | Update i u \<Rightarrow> Some (effect (update i u s))
      | SelectPageSize opt \<Rightarrow> Some (s\<lparr> pageSize := optionValue opt \<rparr>)
      | First \<Rightarrow> if pages s \<le> 1 \<or> page s = 1 then None else Some (s\<lparr> page := 1 \<rparr>)
      | Prev \<Rightarrow> if pages s \<le> 1 \<or> page s = 1 then None else Some (s\<lparr> page := page s - 1 \<rparr>)
      | Next \<Rightarrow> if pages s \<le> 1 \<or> page s = pages s then None else Some (s\<lparr> page := page s + 1 \<rparr>)
      | Last \<Rightarrow> if pages s \<le> 1 \<or> page s = pages s then None else Some (s\<lparr> page := pages s \<rparr>))"

fun run :: "event list \<Rightarrow> state \<Rightarrow> state option" where
  "run [] s = Some s"
| "run (e # es) s = (case step e s of None \<Rightarrow> None | Some s' \<Rightarrow> run es s')"


section \<open>Notions of the specification\<close>

text \<open>
  The specification's words, to be compared with the code: a case-insensitive
  substring match, the filter predicate it describes, and the order it gives for a
  sort key.
\<close>

definition ci_includes :: "string \<Rightarrow> string \<Rightarrow> bool" where
  "ci_includes s q = includes_s (toLowerCase s) (toLowerCase q)"

definition spec_keeps :: "filter_state \<Rightarrow> Problem \<Rightarrow> bool" where
  "spec_keeps fs p =
     (min_f fs \<le> toNumber (rating p) \<and> toNumber (rating p) \<le> max_f fs
      \<and> (solved_f fs \<longrightarrow> solved p)
      \<and> (starred_f fs \<longrightarrow> starred p)
      \<and> (query_f fs \<noteq> [] \<longrightarrow> ci_includes (title p) (query_f fs) \<or> ci_includes (id_p p) (query_f fs)))"

definition key_less :: "key \<Rightarrow> Problem \<Rightarrow> Problem \<Rightarrow> bool" where
  "key_less k a b =
     (case k of
        K_difficulty \<Rightarrow> difficultyRank (difficulty a) < difficultyRank (difficulty b)
      | K_id \<Rightarrow> id_p a < id_p b
      | K_title \<Rightarrow> title a < title b
      | K_slug \<Rightarrow> slug a < slug b
      | K_rating \<Rightarrow> toNumber (rating a) < toNumber (rating b)
      | K_contest \<Rightarrow> contest a < contest b
      | K_solved \<Rightarrow> solved a < solved b
      | K_starred \<Rightarrow> starred a < starred b
      | K_notes \<Rightarrow> notes_p a < notes_p b
      | K_tc \<Rightarrow> tc a < tc b
      | K_sc \<Rightarrow> sc a < sc b)"

text \<open>
  The page index is in range: \<open>1 \<le> page \<le> pages\<close> whenever the visible list is not
  empty. \<open>resizes\<close> singles out the event that changes the page size.
\<close>

definition pageInRange :: "state \<Rightarrow> bool" where
  "pageInRange s = (visible s = [] \<or> (1 \<le> page s \<and> page s \<le> pages s))"

definition resizes :: "event \<Rightarrow> bool" where
  "resizes e = (case e of SelectPageSize opt \<Rightarrow> True | _ \<Rightarrow> False)"


section \<open>Sample data\<close>

text \<open>
  A record of an earlier snapshot that has an identifier, two flags and notes but no
  \<^verbatim>\<open>tc\<close> and no \<^verbatim>\<open>sc\<close>, and a store of another version that holds it.
\<close>

definition sample_old :: saved_rec where
  "sample_old =
     \<lparr> id_s = Some ''1'', solved_s = Some True, starred_s = Some False, notes_s = Some ''x'',
       tc_s = None, sc_s = None \<rparr>"

definition sample_store :: storage where
  "sample_store = Some (Other (Elems [Rec sample_old]))"

definition sample_raw :: "RawItem list" where
  "sample_raw =
     [\<lparr> ID = Whole 1, Title = ''Two Sum'', TitleSlug = ''two-sum'', Rating = Some (Fin (3001 / 2)),
        ContestID_en = Some ''Weekly Contest 2'', ProblemIndex = Some ''Q1'' \<rparr>,
      \<lparr> ID = Whole 2, Title = ''Add Two Numbers'', TitleSlug = ''add-two-numbers'', Rating = None,
        ContestID_en = None, ProblemIndex = None \<rparr>]"

definition sample_merged :: "Problem list" where
  "sample_merged =
     [\<lparr> id_p = ''1'', title = ''Two Sum'', slug = ''two-sum'', rating = Some (Fin 1501),
        contest = ''Weekly Contest 2'', difficulty = ''Easy'', solved = True, starred = False,
        notes_p = ''x'', tc = [], sc = [] \<rparr>,
      \<lparr> id_p = ''2'', title = ''Add Two Numbers'', slug = ''add-two-numbers'', rating = Some (Fin 0),
        contest = [], difficulty = ''Medium'', solved = False, starred = False,
        notes_p = [], tc = [], sc = [] \<rparr>]"

definition sample_state :: state where
  "sample_state =
     (initial (persist sample_merged))
       \<lparr> allProblems := sample_merged, visible := sample_merged, loading := False \<rparr>"

definition sample_patch :: patch where
  "sample_patch =
     \<lparr> id_u = None, title_u = None, slug_u = None, rating_u = None, contest_u = None,
       difficulty_u = None, solved_u = Some False, starred_u = None, notes_u = None,
       tc_u = None, sc_u = None \<rparr>"

definition sample_filters :: filter_state where
  "sample_filters =
     \<lparr> min_f = Fin 1000, max_f = Fin 3500, query_f = ''SUM'', solved_f = True, starred_f = False \<rparr>"

definition tagged :: "string \<Rightarrow> string \<Rightarrow> Problem" where
  "tagged i d =
     \<lparr> id_p = i, title = ''t'', slug = ''t'', rating = Some (Fin 1500), contest = [], difficulty = d,
       solved = False, starred = False, notes_p = [], tc = [], sc = [] \<rparr>"

definition sample_list :: "Problem list" where
  "sample_list =
     [tagged ''3'' ''Medium'', tagged ''1'' ''Hard'', tagged ''2'' ''Easy'', tagged ''4'' ''Medium'']"

text \<open>
  Feed records with a number beyond the range of a double (\<^verbatim>\<open>1e999\<close> in the JSON text,
  read as \<^verbatim>\<open>Infinity\<close>): one as the identifier, one as the rating.
\<close>

definition huge_id_raw :: RawItem where
  "huge_id_raw =
     \<lparr> ID = PlusInfinity, Title = ''x'', TitleSlug = ''x'', Rating = Some (Fin 1500),
       ContestID_en = None, ProblemIndex = None \<rparr>"

definition inf_query_filters :: filter_state where
  "inf_query_filters =
     \<lparr> min_f = Fin 0, max_f = Fin 3500, query_f = ''inf'', solved_f = False, starred_f = False \<rparr>"

definition Infinity_query_filters :: filter_state where
  "Infinity_query_filters =
     \<lparr> min_f = Fin 0, max_f = Fin 3500, query_f = ''Infinity'', solved_f = False, starred_f = False \<rparr>"

definition huge_rating_raw :: RawItem where
  "huge_rating_raw =
     \<lparr> ID = Whole 9, Title = ''y'', TitleSlug = ''y'', Rating = Some PInf,
       ContestID_en = None, ProblemIndex = None \<rparr>"

definition dup_raw :: "RawItem list" where
  "dup_raw =
     [\<lparr> ID = Whole 1, Title = ''Two Sum'', TitleSlug = ''two-sum'', Rating = Some (Fin 1500),
        ContestID_en = None, ProblemIndex = Some ''Q1'' \<rparr>,
      \<lparr> ID = Whole 1, Title = ''Two Sum II'', TitleSlug = ''two-sum-ii'', Rating = Some (Fin 1600),
        ContestID_en = None, ProblemIndex = Some ''Q2'' \<rparr>]"


definition many_raw :: "RawItem list" where
  "many_raw =
     map (\<lambda>i. \<lparr> ID = Whole (int i), Title = ''p'', TitleSlug = ''p'', Rating = Some (Fin 1500),
                ContestID_en = None, ProblemIndex = None \<rparr>) [1..<27]"


section \<open>Facts about the host language functions\<close>

lemma less_eq_Fin [simp]: "Fin a \<le> Fin b \<longleftrightarrow> a \<le> b"
  by simp

lemma less_Fin [simp]: "Fin a < Fin b \<longleftrightarrow> a < b"
  by (auto simp: less_number_def)






lemma or_simps:
  "or_bool (Some b) False = b" "or_bool None False = False"
  "or_str (Some s) [] = s" "or_str None [] = []"
  by (auto simp: or_bool_def or_str_def)

lemma of_char_digit_char: "d < 10 \<Longrightarrow> (of_char (digit_char d) :: nat) = 48 + d"
  by (simp add: digit_char_def)

lemma digit_char_inj:
  assumes "a < 10" "b < 10" "digit_char a = digit_char b"
  shows "a = b"
proof -
  have "(of_char (digit_char a) :: nat) = of_char (digit_char b)"
    using assms(3) by simp
  then show ?thesis
    using assms(1,2) by (simp add: of_char_digit_char)
qed

lemma digits_chars: "c \<in> set (digits n) \<Longrightarrow> \<exists>d<10. c = digit_char d"
proof (induction n rule: digits.induct)
  case (1 n)
  show ?case
  proof (cases "n < 10")
    case True
    with "1.prems" show ?thesis
      by (subst (asm) digits.simps) auto
  next
    case False
    have last: "\<exists>d<10. digit_char (n mod 10) = digit_char d"
      by (rule exI[of _ "n mod 10"]) simp
    from False "1.prems" have "c \<in> set (digits (n div 10)) \<or> c = digit_char (n mod 10)"
      by (subst (asm) digits.simps) auto
    with False "1.IH" last show ?thesis
      by blast
  qed
qed

lemma digits_code_range:
  assumes "c \<in> set (digits n)"
  shows "48 \<le> (of_char c :: nat) \<and> (of_char c :: nat) \<le> 57"
proof -
  from digits_chars[OF assms] obtain d where "d < 10" and "c = digit_char d"
    by blast
  then show ?thesis
    by (simp add: of_char_digit_char)
qed

lemma digits_not_Nil: "digits n \<noteq> []"
  by (subst digits.simps) simp

lemma digits_no_minus: "c \<in> set (digits n) \<Longrightarrow> c \<noteq> CHR ''-''"
  using digits_code_range[of c n] by auto

lemma digits_no_I: "c \<in> set (digits n) \<Longrightarrow> c \<noteq> CHR ''I''"
  using digits_code_range[of c n] by auto

lemma digits_inj: "digits n = digits m \<Longrightarrow> n = m"
proof (induction n arbitrary: m rule: digits.induct)
  case (1 n)
  show ?case
  proof (cases "n < 10")
    case n: True
    show ?thesis
    proof (cases "m < 10")
      case True
      with n "1.prems" show ?thesis
        by (simp add: digits.simps[of n] digits.simps[of m] digit_char_inj)
    next
      case False
      with n "1.prems" digits_not_Nil[of "m div 10"] show ?thesis
        by (simp add: digits.simps[of n] digits.simps[of m])
    qed
  next
    case n: False
    show ?thesis
    proof (cases "m < 10")
      case True
      with n "1.prems" digits_not_Nil[of "n div 10"] show ?thesis
        by (simp add: digits.simps[of n] digits.simps[of m])
    next
      case False
      with n "1.prems" have eq: "digits (n div 10) = digits (m div 10)"
        and d: "digit_char (n mod 10) = digit_char (m mod 10)"
        by (simp_all add: digits.simps[of n] digits.simps[of m])
      from "1.IH"[OF n eq] have "n div 10 = m div 10" .
      moreover from d have "n mod 10 = m mod 10"
        by (intro digit_char_inj) simp_all
      ultimately show ?thesis
        by (metis div_mult_mod_eq)
    qed
  qed
qed

text \<open>Distinct identifier numbers have distinct strings.\<close>

lemma String_int_inj: "String_int i = String_int j \<Longrightarrow> i = j"
proof -
  assume eq: "String_int i = String_int j"
  have hd_pos: "\<And>n. hd (digits n) \<noteq> CHR ''-''"
    using digits_no_minus digits_not_Nil by (metis list.set_sel(1))
  show "i = j"
  proof (cases "i < 0")
    case i: True
    show ?thesis
    proof (cases "j < 0")
      case True
      with i eq have "digits (nat (- i)) = digits (nat (- j))"
        by (simp add: String_int_def)
      then have "nat (- i) = nat (- j)" by (rule digits_inj)
      with i True show ?thesis by simp
    next
      case False
      with i eq have "CHR ''-'' # digits (nat (- i)) = digits (nat j)"
        by (simp add: String_int_def)
      then have "hd (digits (nat j)) = CHR ''-''" by (metis list.sel(1))
      with hd_pos show ?thesis by blast
    qed
  next
    case i: False
    show ?thesis
    proof (cases "j < 0")
      case True
      with i eq have "digits (nat i) = CHR ''-'' # digits (nat (- j))"
        by (simp add: String_int_def)
      then have "hd (digits (nat i)) = CHR ''-''" by (metis list.sel(1))
      with hd_pos show ?thesis by blast
    next
      case False
      with i eq have "digits (nat i) = digits (nat j)"
        by (simp add: String_int_def)
      then have "nat i = nat j" by (rule digits_inj)
      with i False show ?thesis by simp
    qed
  qed
qed

lemma String_int_no_I: "CHR ''I'' \<notin> set (String_int i)"
  using digits_no_I by (auto simp: String_int_def)

lemma String_num_inj: "String_num a = String_num b \<Longrightarrow> a = b"
proof -
  assume eq: "String_num a = String_num b"
  have inf: "String_int i \<noteq> ''Infinity''" for i
    using String_int_no_I[of i] by auto
  have minf: "String_int i \<noteq> ''-Infinity''" for i
    using String_int_no_I[of i] by auto
  show "a = b"
  proof (cases a)
    case (Whole i)
    with eq inf[of i] minf[of i] show ?thesis
      by (cases b) (auto simp: String_num_def dest: String_int_inj)
  next
    case PlusInfinity
    with eq inf show ?thesis
      by (cases b) (auto simp: String_num_def)
  next
    case MinusInfinity
    with eq minf show ?thesis
      by (cases b) (auto simp: String_num_def)
  qed
qed

text \<open>A decimal string has no letter to lower-case.\<close>

lemma lower_digit_char: "d < 10 \<Longrightarrow> lower_char (digit_char d) = digit_char d"
  by (simp add: lower_char_def of_char_digit_char Let_def)

lemma lower_digits: "toLowerCase (digits n) = digits n"
proof -
  have "lower_char c = c" if "c \<in> set (digits n)" for c
    using digits_chars[OF that] lower_digit_char by auto
  then show ?thesis
    by (simp add: toLowerCase_def map_idI)
qed

lemma lower_String_int: "toLowerCase (String_int i) = String_int i"
proof -
  have "lower_char CHR ''-'' = CHR ''-''"
    by (simp add: lower_char_def)
  then show ?thesis
    using lower_digits by (simp add: String_int_def toLowerCase_def)
qed

text \<open>\<open>includes_s\<close> is the substring relation.\<close>

lemma includes_s_sublist: "includes_s s q = sublist q s"
  by (induction s) (simp_all add: sublist_Cons_right)

lemma includes_s_iff: "includes_s s q \<longleftrightarrow> (\<exists>u v. s = u @ q @ v)"
  by (simp add: includes_s_sublist sublist_def)

lemma find_app:
  "find P (xs @ ys) = (case find P xs of None \<Rightarrow> find P ys | Some x \<Rightarrow> Some x)"
  by (induction xs) simp_all

lemma find_SomeD: "find P xs = Some x \<Longrightarrow> x \<in> set xs \<and> P x"
  by (induction xs) (auto split: if_splits)


section \<open>Difficulty inference\<close>

text \<open>
  Claim C2. \<open>inferDifficulty\<close> is a total function of the optional index:
  \<^verbatim>\<open>"Q1"\<close> gives \<^verbatim>\<open>"Easy"\<close>; \<^verbatim>\<open>"Q3"\<close>, \<^verbatim>\<open>"Q4"\<close> and \<^verbatim>\<open>"Q5"\<close> give \<^verbatim>\<open>"Hard"\<close>; every other
  argument, \<^verbatim>\<open>undefined\<close> and \<^verbatim>\<open>"Q2"\<close> among them, gives \<^verbatim>\<open>"Medium"\<close>.
\<close>

theorem inferDifficulty_cases:
  "inferDifficulty (Some ''Q1'') = ''Easy''
   \<and> (x \<in> {Some ''Q3'', Some ''Q4'', Some ''Q5''} \<longrightarrow> inferDifficulty x = ''Hard'')
   \<and> (x \<notin> {Some ''Q1'', Some ''Q3'', Some ''Q4'', Some ''Q5''} \<longrightarrow> inferDifficulty x = ''Medium'')
   \<and> inferDifficulty None = ''Medium''
   \<and> inferDifficulty (Some ''Q2'') = ''Medium''"
  by (cases x) (auto simp: inferDifficulty_def or_str_def)

theorem inferDifficulty_cases_witness:
  "Some ''Q4'' \<in> {Some ''Q3'', Some ''Q4'', Some ''Q5''}
   \<and> inferDifficulty (Some ''Q4'') = ''Hard''
   \<and> Some ''Q7'' \<notin> {Some ''Q1'', Some ''Q3'', Some ''Q4'', Some ''Q5''}
   \<and> inferDifficulty (Some ''Q7'') = ''Medium''"
  using inferDifficulty_cases[of "Some ''Q4''"] inferDifficulty_cases[of "Some ''Q7''"]
  by simp


section \<open>The store\<close>

lemma asSaved_jsonProblem: "asSaved (jsonProblem p) = asSaved p"
  by (simp add: asSaved_def jsonProblem_def)

text \<open>What \<open>persist\<close> wrote is read by \<open>fetchAndMerge\<close> as the records of the same list.\<close>

lemma readSaved_persist: "readSaved (persist ps) = Inr (map asSaved ps)"
  by (simp add: readSaved_def persist_def asSaved_jsonProblem)

lemma jsonNumber_finite: "v \<noteq> Some PInf \<Longrightarrow> v \<noteq> Some NInf \<Longrightarrow> jsonNumber v = v"
  by (cases v) (auto simp: jsonNumber_def split: number.splits)

lemma jsonProblem_finite:
  "rating p \<noteq> Some PInf \<Longrightarrow> rating p \<noteq> Some NInf \<Longrightarrow> jsonProblem p = p"
  by (simp add: jsonProblem_def jsonNumber_finite)

text \<open>
  Claim C5, as the code has it. A feed rating beyond the range of a double is merged
  as \<^verbatim>\<open>Infinity\<close>; \<open>persist\<close> stores the list that \<open>fetchAndMerge\<close> built with the rating
  \<^verbatim>\<open>null\<close>, and loading under the same version gives a list that differs from it.
\<close>

theorem persist_infinite_rating_counterexample:
  "(case loadData None None (initial (persist (merge [] [huge_rating_raw]))) of
      Inl e \<Rightarrow> False
    | Inr s \<Rightarrow> map rating (merge [] [huge_rating_raw]) = [Some PInf]
               \<and> map rating (allProblems s) = [None]
               \<and> allProblems s \<noteq> merge [] [huge_rating_raw])"
  by code_simp

text \<open>
  Claim C5, amended. A list persisted with \<open>persist\<close> and loaded under the same
  version constant comes back as \<^verbatim>\<open>JSON\<close> carries it: \<open>loadData\<close> takes the cache path,
  requests nothing from the network, and publishes the persisted list with every
  infinite rating replaced by \<^verbatim>\<open>null\<close>. When no rating of the list is infinite, the
  published list is equal to the persisted one, field for field.
\<close>

theorem persist_loadData_roundtrip:
  "loadData net1 net2 (s\<lparr> storage := persist ps \<rparr>) =
     Inr (s\<lparr> storage := persist ps, allProblems := map jsonProblem ps, loading := False \<rparr>)
   \<and> ((\<forall>p\<in>set ps. rating p \<noteq> Some PInf \<and> rating p \<noteq> Some NInf) \<longrightarrow>
        loadData net1 net2 (s\<lparr> storage := persist ps \<rparr>) =
          Inr (s\<lparr> storage := persist ps, allProblems := ps, loading := False \<rparr>))"
proof -
  have load: "loadData net1 net2 (s\<lparr> storage := persist ps \<rparr>) =
     Inr (s\<lparr> storage := persist ps, allProblems := map jsonProblem ps, loading := False \<rparr>)"
    by (simp add: loadData_def persist_def)
  have "map jsonProblem ps = ps"
    if "\<forall>p\<in>set ps. rating p \<noteq> Some PInf \<and> rating p \<noteq> Some NInf"
    using that by (simp add: jsonProblem_finite map_idI)
  with load show ?thesis by simp
qed

theorem persist_loadData_roundtrip_witness:
  "list_all (\<lambda>p. rating p \<noteq> Some PInf \<and> rating p \<noteq> Some NInf) sample_merged
   \<and> loadData None None ((initial None)\<lparr> storage := persist sample_merged \<rparr>) =
       Inr ((initial None)
             \<lparr> storage := persist sample_merged, allProblems := sample_merged, loading := False \<rparr>)"
proof -
  have fin: "\<forall>p\<in>set sample_merged. rating p \<noteq> Some PInf \<and> rating p \<noteq> Some NInf"
    by (simp add: sample_merged_def)
  then have "list_all (\<lambda>p. rating p \<noteq> Some PInf \<and> rating p \<noteq> Some NInf) sample_merged"
    by (simp add: list_all_iff)
  with persist_loadData_roundtrip[where ?net1.0 = None and ?net2.0 = None and s = "initial None"
      and ps = sample_merged] fin show ?thesis
    by blast
qed

text \<open>
  Without an entry, and with an entry that is no snapshot of the current version,
  \<open>loadData\<close> runs \<open>fetchAndMerge\<close> (once more after a failure).
\<close>

lemma loadData_refetch:
  assumes "storage s = None \<or> (\<exists>d. storage s = Some (Other d))"
  shows "loadData net1 net2 s = tryFetch net1 net2 s"
  using assms by (auto simp: loadData_def)

text \<open>
  Claim C6. A stored string that is no JSON is not treated as a missing entry: the
  \<^verbatim>\<open>catch\<close> block of \<open>loadData\<close> calls \<open>fetchAndMerge\<close>, which parses the same string
  again and throws, whatever the network returned; without an entry the same request
  ends with the merged list published.
\<close>

theorem loadData_garbage_rejects:
  "loadData (Some raw) net2 (initial (Some Garbage)) = Inl SyntaxError
   \<and> loadData (Some raw) net2 (initial None) =
       Inr ((initial None)
             \<lparr> storage := persist (merge [] raw), allProblems := merge [] raw, loading := False \<rparr>)"
  by (simp add: loadData_def tryFetch_def fetchAndMerge_def readSaved_def initial_def Let_def)


section \<open>Dataset merge\<close>

lemma savedMap_fold:
  "fold (\<lambda>p m. case id_s p of None \<Rightarrow> m | Some k \<Rightarrow> m(k \<mapsto> p)) saved m0 k =
     (case find (\<lambda>p. id_s p = Some k) (rev saved) of None \<Rightarrow> m0 k | Some p \<Rightarrow> Some p)"
proof (induction saved arbitrary: m0)
  case Nil
  then show ?case by simp
next
  case (Cons a saved)
  let ?F = "\<lambda>p m. case id_s p of None \<Rightarrow> m | Some k \<Rightarrow> m(k \<mapsto> p)"
  have "fold ?F (a # saved) m0 k = fold ?F saved (?F a m0) k"
    by (simp only: fold_simps o_apply)
  also have "\<dots> = (case find (\<lambda>p. id_s p = Some k) (rev saved) of
                      None \<Rightarrow> (?F a m0) k | Some p \<Rightarrow> Some p)"
    by (rule Cons.IH)
  also have "\<dots> = (case find (\<lambda>p. id_s p = Some k) (rev (a # saved)) of
                      None \<Rightarrow> m0 k | Some p \<Rightarrow> Some p)"
    by (cases "id_s a") (simp_all add: find_app split: option.splits)
  finally show ?case .
qed

lemma savedMap_find: "savedMap saved k = find (\<lambda>p. id_s p = Some k) (rev saved)"
  by (simp add: savedMap_def savedMap_fold split: option.splits)

lemma savedMap_None: "savedMap saved k = None \<longleftrightarrow> (\<forall>p\<in>set saved. id_s p \<noteq> Some k)"
  by (auto simp: savedMap_find find_None_iff)

lemma savedMap_Some: "savedMap saved k = Some old \<Longrightarrow> old \<in> set saved \<and> id_s old = Some k"
  using find_SomeD[of "\<lambda>p. id_s p = Some k" "rev saved" old] by (simp add: savedMap_find)

lemma merge_nth:
  assumes "i < length raw"
  shows "merge saved raw ! i = mergeOne (savedMap saved) (raw ! i)"
  using assms by (simp add: merge_def)

lemma mergeOne_fresh:
  "id_p (mergeOne m r) = String_num (ID r)"
  "title (mergeOne m r) = Title r"
  "slug (mergeOne m r) = TitleSlug r"
  "rating (mergeOne m r) = Some (Math_round (or_num (Rating r) (Fin 0)))"
  "contest (mergeOne m r) = or_str (ContestID_en r) []"
  "difficulty (mergeOne m r) = inferDifficulty (ProblemIndex r)"
  by (simp_all add: mergeOne_def Let_def)

lemma mergeOne_new:
  assumes "m (String_num (ID r)) = None"
  shows "\<not> solved (mergeOne m r)" "\<not> starred (mergeOne m r)" "notes_p (mergeOne m r) = []"
    "tc (mergeOne m r) = []" "sc (mergeOne m r) = []"
  using assms by (simp_all add: mergeOne_def or_simps)

lemma mergeOne_old:
  assumes "m (String_num (ID r)) = Some old"
  shows "solved (mergeOne m r) = or_bool (solved_s old) False"
    "starred (mergeOne m r) = or_bool (starred_s old) False"
    "notes_p (mergeOne m r) = or_str (notes_s old) []"
    "tc (mergeOne m r) = or_str (tc_s old) []"
    "sc (mergeOne m r) = or_str (sc_s old) []"
  using assms by (simp_all add: mergeOne_def)

text \<open>
  \<^verbatim>\<open>v || d\<close> with the default of the field: a value that is there is copied, a missing
  one gives the default.
\<close>

lemma or_bool_copy:
  "(\<forall>b. v = Some b \<longrightarrow> or_bool v False = b) \<and> (v = None \<longrightarrow> \<not> or_bool v False)"
  by (cases v) (simp_all add: or_simps)

lemma or_str_copy:
  "(\<forall>t. v = Some t \<longrightarrow> or_str v [] = t) \<and> (v = None \<longrightarrow> or_str v [] = [])"
  by (cases v) (simp_all add: or_simps)

lemma map_id_merge: "map id_p (merge saved raw) = map String_num (map ID raw)"
  by (simp add: merge_def mergeOne_fresh(1) o_def)

lemma distinct_merge:
  assumes "distinct (map ID raw)"
  shows "distinct (map id_p (merge saved raw))"
proof -
  have inj: "inj_on String_num (set (map ID raw))"
    by (rule inj_onI) (rule String_num_inj)
  have "distinct (map String_num (map ID raw))"
    by (rule iffD2[OF distinct_map]) (rule conjI[OF assms inj])
  then show ?thesis
    by (simp only: map_id_merge)
qed

lemma fetchAndMerge_result:
  assumes "fetchAndMerge (Some raw) s = Inr s'"
  shows "\<exists>saved. readSaved (storage s) = Inr saved \<and> allProblems s' = merge saved raw"
  using assms by (auto simp: fetchAndMerge_def Let_def split: sum.splits)

text \<open>
  Claim C1. For every store that \<open>fetchAndMerge\<close> can read (it throws on a string that
  is no JSON, on \<^verbatim>\<open>data\<close> that is no array and on a \<^verbatim>\<open>null\<close> element), whatever its
  version and whatever fields its records have, and every fetched list \<open>raw\<close>,
  \<open>fetchAndMerge\<close> publishes and persists one record per raw record, in order:
  identifier, title, slug, rating, contest and difficulty come from the raw record;
  solved, starred, notes, tc and sc are those of the previous record with the same
  identifier (the last one, should there be several), a field that this record has
  not giving \<open>False\<close> or the empty string; they are \<open>False\<close> and the empty string when no
  previous record has the identifier. An identifier that only the previous snapshot
  has does not occur in the result.
\<close>

theorem fetchAndMerge_merges:
  assumes "readSaved (storage s) = Inr saved"
  shows "\<exists>merged.
      fetchAndMerge (Some raw) s =
        Inr (s\<lparr> storage := persist merged, allProblems := merged, loading := False \<rparr>)
      \<and> length merged = length raw
      \<and> (\<forall>i<length raw.
            id_p (merged ! i) = String_num (ID (raw ! i))
            \<and> title (merged ! i) = Title (raw ! i)
            \<and> slug (merged ! i) = TitleSlug (raw ! i)
            \<and> rating (merged ! i) = Some (Math_round (or_num (Rating (raw ! i)) (Fin 0)))
            \<and> contest (merged ! i) = or_str (ContestID_en (raw ! i)) []
            \<and> difficulty (merged ! i) = inferDifficulty (ProblemIndex (raw ! i))
            \<and> ((\<forall>p\<in>set saved. id_s p \<noteq> Some (String_num (ID (raw ! i)))) \<longrightarrow>
                   \<not> solved (merged ! i) \<and> \<not> starred (merged ! i) \<and> notes_p (merged ! i) = []
                   \<and> tc (merged ! i) = [] \<and> sc (merged ! i) = [])
            \<and> ((\<exists>p\<in>set saved. id_s p = Some (String_num (ID (raw ! i)))) \<longrightarrow>
                   (\<exists>old\<in>set saved.
                      find (\<lambda>p. id_s p = Some (String_num (ID (raw ! i)))) (rev saved) = Some old
                      \<and> id_s old = Some (String_num (ID (raw ! i)))
                      \<and> (\<forall>b. solved_s old = Some b \<longrightarrow> solved (merged ! i) = b)
                      \<and> (solved_s old = None \<longrightarrow> \<not> solved (merged ! i))
                      \<and> (\<forall>b. starred_s old = Some b \<longrightarrow> starred (merged ! i) = b)
                      \<and> (starred_s old = None \<longrightarrow> \<not> starred (merged ! i))
                      \<and> (\<forall>t. notes_s old = Some t \<longrightarrow> notes_p (merged ! i) = t)
                      \<and> (notes_s old = None \<longrightarrow> notes_p (merged ! i) = [])
                      \<and> (\<forall>t. tc_s old = Some t \<longrightarrow> tc (merged ! i) = t)
                      \<and> (tc_s old = None \<longrightarrow> tc (merged ! i) = [])
                      \<and> (\<forall>t. sc_s old = Some t \<longrightarrow> sc (merged ! i) = t)
                      \<and> (sc_s old = None \<longrightarrow> sc (merged ! i) = []))))
      \<and> (\<forall>p\<in>set saved. \<forall>k. id_s p = Some k \<longrightarrow>
             k \<notin> set (map (\<lambda>r. String_num (ID r)) raw) \<longrightarrow> k \<notin> set (map id_p merged))"
proof (intro exI[of _ "merge saved raw"] conjI allI impI ballI)
  show "fetchAndMerge (Some raw) s =
        Inr (s\<lparr> storage := persist (merge saved raw), allProblems := merge saved raw, loading := False \<rparr>)"
    by (simp add: fetchAndMerge_def assms Let_def)
  show "length (merge saved raw) = length raw"
    by (simp add: merge_def)
next
  fix i assume i: "i < length raw"
  let ?k = "String_num (ID (raw ! i))"
  show "id_p (merge saved raw ! i) = ?k" "title (merge saved raw ! i) = Title (raw ! i)"
    "slug (merge saved raw ! i) = TitleSlug (raw ! i)"
    "rating (merge saved raw ! i) = Some (Math_round (or_num (Rating (raw ! i)) (Fin 0)))"
    "contest (merge saved raw ! i) = or_str (ContestID_en (raw ! i)) []"
    "difficulty (merge saved raw ! i) = inferDifficulty (ProblemIndex (raw ! i))"
    by (simp_all add: merge_nth[OF i] mergeOne_fresh)
  {
    assume "\<forall>p\<in>set saved. id_s p \<noteq> Some ?k"
    then have none: "savedMap saved ?k = None"
      by (simp add: savedMap_None)
    show "\<not> solved (merge saved raw ! i)" "\<not> starred (merge saved raw ! i)"
      "notes_p (merge saved raw ! i) = []" "tc (merge saved raw ! i) = []"
      "sc (merge saved raw ! i) = []"
      by (simp_all add: merge_nth[OF i] mergeOne_new[of "savedMap saved" "raw ! i", OF none])
  }
  {
    assume "\<exists>p\<in>set saved. id_s p = Some ?k"
    then have "savedMap saved ?k \<noteq> None"
      by (simp add: savedMap_None)
    then obtain old where old: "savedMap saved ?k = Some old"
      by blast
    from savedMap_Some[OF old] have mem: "old \<in> set saved" and idk: "id_s old = Some ?k"
      by simp_all
    have fnd: "find (\<lambda>p. id_s p = Some ?k) (rev saved) = Some old"
      using old by (simp add: savedMap_find)
    note m = merge_nth[OF i] mergeOne_old[of "savedMap saved" "raw ! i", OF old]
    show "\<exists>old\<in>set saved.
        find (\<lambda>p. id_s p = Some ?k) (rev saved) = Some old
        \<and> id_s old = Some ?k
        \<and> (\<forall>b. solved_s old = Some b \<longrightarrow> solved (merge saved raw ! i) = b)
        \<and> (solved_s old = None \<longrightarrow> \<not> solved (merge saved raw ! i))
        \<and> (\<forall>b. starred_s old = Some b \<longrightarrow> starred (merge saved raw ! i) = b)
        \<and> (starred_s old = None \<longrightarrow> \<not> starred (merge saved raw ! i))
        \<and> (\<forall>t. notes_s old = Some t \<longrightarrow> notes_p (merge saved raw ! i) = t)
        \<and> (notes_s old = None \<longrightarrow> notes_p (merge saved raw ! i) = [])
        \<and> (\<forall>t. tc_s old = Some t \<longrightarrow> tc (merge saved raw ! i) = t)
        \<and> (tc_s old = None \<longrightarrow> tc (merge saved raw ! i) = [])
        \<and> (\<forall>t. sc_s old = Some t \<longrightarrow> sc (merge saved raw ! i) = t)
        \<and> (sc_s old = None \<longrightarrow> sc (merge saved raw ! i) = [])"
      using mem idk fnd or_bool_copy[of "solved_s old"] or_bool_copy[of "starred_s old"]
        or_str_copy[of "notes_s old"] or_str_copy[of "tc_s old"] or_str_copy[of "sc_s old"]
      by (intro bexI[of _ old]) (simp_all only: m, simp_all)
  }
next
  fix p k assume "p \<in> set saved" and "id_s p = Some k"
    and "k \<notin> set (map (\<lambda>r. String_num (ID r)) raw)"
  then show "k \<notin> set (map id_p (merge saved raw))"
    by (simp add: merge_def mergeOne_fresh(1) o_def)
qed

lemma merge_sample: "merge [sample_old] sample_raw = sample_merged"
  by code_simp

lemma readSaved_sample: "readSaved (storage (initial sample_store)) = Inr [sample_old]"
  by (simp add: initial_def sample_store_def readSaved_def)

theorem fetchAndMerge_merges_witness:
  "readSaved (storage (initial sample_store)) = Inr [sample_old]
   \<and> (\<exists>merged.
        fetchAndMerge (Some sample_raw) (initial sample_store) =
          Inr ((initial sample_store)
                \<lparr> storage := persist merged, allProblems := merged, loading := False \<rparr>)
        \<and> length merged = length sample_raw
        \<and> id_p (merged ! 0) = String_num (ID (sample_raw ! 0))
        \<and> solved (merged ! 0) \<and> notes_p (merged ! 0) = ''x''
        \<and> tc_s sample_old = None \<and> tc (merged ! 0) = []
        \<and> \<not> solved (merged ! 1) \<and> notes_p (merged ! 1) = [])"
proof -
  have h: "readSaved (storage (initial sample_store)) = Inr [sample_old]"
    by (rule readSaved_sample)
  have i0: "(0::nat) < length sample_raw" and i1: "(1::nat) < length sample_raw"
    by (simp_all add: sample_raw_def)
  have same: "\<exists>p\<in>set [sample_old]. id_s p = Some (String_num (ID (sample_raw ! 0)))"
    by code_simp
  have new: "\<forall>p\<in>set [sample_old]. id_s p \<noteq> Some (String_num (ID (sample_raw ! 1)))"
    by code_simp
  have f: "solved_s sample_old = Some True" "notes_s sample_old = Some ''x''"
    "tc_s sample_old = None"
    by (simp_all add: sample_old_def)
  from fetchAndMerge_merges[OF h, of sample_raw] i0 i1 same new f
  have "\<exists>merged.
        fetchAndMerge (Some sample_raw) (initial sample_store) =
          Inr ((initial sample_store)
                \<lparr> storage := persist merged, allProblems := merged, loading := False \<rparr>)
        \<and> length merged = length sample_raw
        \<and> id_p (merged ! 0) = String_num (ID (sample_raw ! 0))
        \<and> solved (merged ! 0) \<and> notes_p (merged ! 0) = ''x''
        \<and> tc_s sample_old = None \<and> tc (merged ! 0) = []
        \<and> \<not> solved (merged ! 1) \<and> notes_p (merged ! 1) = []"
    by (elim exE conjE) (rule exI, auto)
  with h show ?thesis by blast
qed

text \<open>
  An entry of another version is not published, but \<open>fetchAndMerge\<close> reads it all the
  same: its records give the user-owned fields of the merged list.
\<close>

lemma stale_version_is_merged:
  "loadData (Some sample_raw) net2 (initial sample_store) =
   Inr ((initial sample_store)
         \<lparr> storage := persist sample_merged, allProblems := sample_merged, loading := False \<rparr>)"
proof -
  have "loadData (Some sample_raw) net2 (initial sample_store) =
        tryFetch (Some sample_raw) net2 (initial sample_store)"
    by (rule loadData_refetch) (simp add: initial_def sample_store_def)
  also have "\<dots> = Inr ((initial sample_store)
         \<lparr> storage := persist sample_merged, allProblems := sample_merged, loading := False \<rparr>)"
    by (simp add: tryFetch_def fetchAndMerge_def readSaved_sample merge_sample Let_def)
  finally show ?thesis .
qed





section \<open>Identifiers\<close>

text \<open>
  Claim C8, as the code has it. Two raw records with the same \<^verbatim>\<open>ID\<close> give two merged
  records with the same identifier: the merge maps the raw list record by record and
  removes nothing.
\<close>

theorem merge_duplicate_ids_counterexample:
  "(case fetchAndMerge (Some dup_raw) (initial None) of
      Inl e \<Rightarrow> False
    | Inr s \<Rightarrow> map id_p (allProblems s) = [''1'', ''1''] \<and> \<not> distinct (map id_p (allProblems s)))"
  by code_simp

lemma id_spread: "id_u u = None \<Longrightarrow> id_p (spread p u) = id_p p"
  by (simp add: spread_def)

lemma map_id_updateList: "id_u u = None \<Longrightarrow> map id_p (updateList i u ps) = map id_p ps"
  by (induction ps) (simp_all add: updateList_def id_spread)

text \<open>
  Claim C8, amended. When the raw records have pairwise distinct \<^verbatim>\<open>ID\<close>s, the list that
  \<open>fetchAndMerge\<close> publishes has pairwise distinct identifiers; and an \<open>update\<close> whose
  patch does not name the identifier keeps the identifiers of the list distinct.
\<close>

theorem identifiers_unique:
  "(distinct (map ID raw) \<and> fetchAndMerge (Some raw) s = Inr s' \<longrightarrow>
      distinct (map id_p (allProblems s')))
   \<and> (id_u u = None \<and> distinct (map id_p (allProblems s)) \<longrightarrow>
      distinct (map id_p (allProblems (update i u s))))"
proof (intro conjI impI)
  assume a: "distinct (map ID raw) \<and> fetchAndMerge (Some raw) s = Inr s'"
  then obtain saved where "allProblems s' = merge saved raw"
    using fetchAndMerge_result by blast
  with a show "distinct (map id_p (allProblems s'))"
    by (simp add: distinct_merge)
next
  assume "id_u u = None \<and> distinct (map id_p (allProblems s))"
  then show "distinct (map id_p (allProblems (update i u s)))"
    by (simp add: update_def Let_def map_id_updateList)
qed

theorem identifiers_unique_witness:
  "distinct (map ID sample_raw)
   \<and> fetchAndMerge (Some sample_raw) (initial sample_store) =
       Inr ((initial sample_store)
             \<lparr> storage := persist sample_merged, allProblems := sample_merged, loading := False \<rparr>)
   \<and> distinct (map id_p sample_merged)
   \<and> id_u sample_patch = None
   \<and> distinct (map id_p (allProblems sample_state))
   \<and> distinct (map id_p (allProblems (update ''1'' sample_patch sample_state)))"
proof -
  let ?s = "initial sample_store"
  let ?s' = "?s\<lparr> storage := persist sample_merged, allProblems := sample_merged, loading := False \<rparr>"
  have d: "distinct (map ID sample_raw)"
    by (simp add: sample_raw_def)
  have f: "fetchAndMerge (Some sample_raw) ?s = Inr ?s'"
    by (simp add: fetchAndMerge_def readSaved_sample merge_sample Let_def)
  have u: "id_u sample_patch = None"
    by (simp add: sample_patch_def)
  from identifiers_unique[where raw = sample_raw and s = ?s and s' = ?s'] d f
  have m: "distinct (map id_p sample_merged)"
    by simp
  then have a: "distinct (map id_p (allProblems sample_state))"
    by (simp add: sample_state_def)
  from identifiers_unique[where s = sample_state and u = sample_patch and i = "''1''"] u a
  have "distinct (map id_p (allProblems (update ''1'' sample_patch sample_state)))"
    by blast
  with d f m u a show ?thesis by blast
qed


section \<open>Mutation\<close>

lemma spread_frame:
  "(id_u u = None \<longrightarrow> id_p (spread p u) = id_p p)
   \<and> (title_u u = None \<longrightarrow> title (spread p u) = title p)
   \<and> (slug_u u = None \<longrightarrow> slug (spread p u) = slug p)
   \<and> (rating_u u = None \<longrightarrow> rating (spread p u) = rating p)
   \<and> (contest_u u = None \<longrightarrow> contest (spread p u) = contest p)
   \<and> (difficulty_u u = None \<longrightarrow> difficulty (spread p u) = difficulty p)
   \<and> (solved_u u = None \<longrightarrow> solved (spread p u) = solved p)
   \<and> (starred_u u = None \<longrightarrow> starred (spread p u) = starred p)
   \<and> (notes_u u = None \<longrightarrow> notes_p (spread p u) = notes_p p)
   \<and> (tc_u u = None \<longrightarrow> tc (spread p u) = tc p)
   \<and> (sc_u u = None \<longrightarrow> sc (spread p u) = sc p)"
  by (simp add: spread_def)

text \<open>
  Claim C10. \<open>update i u\<close> keeps the length of the list, leaves every record with
  another identifier as it is, and on a record with identifier \<open>i\<close> leaves every field
  that the patch does not name as it is.
\<close>

theorem update_frame:
  "length (allProblems (update i u s)) = length (allProblems s)
   \<and> (\<forall>n<length (allProblems s).
        (id_p (allProblems s ! n) \<noteq> i \<longrightarrow> allProblems (update i u s) ! n = allProblems s ! n)
        \<and> (id_p (allProblems s ! n) = i \<longrightarrow>
             (id_u u = None \<longrightarrow> id_p (allProblems (update i u s) ! n) = id_p (allProblems s ! n))
           \<and> (title_u u = None \<longrightarrow> title (allProblems (update i u s) ! n) = title (allProblems s ! n))
           \<and> (slug_u u = None \<longrightarrow> slug (allProblems (update i u s) ! n) = slug (allProblems s ! n))
           \<and> (rating_u u = None \<longrightarrow> rating (allProblems (update i u s) ! n) = rating (allProblems s ! n))
           \<and> (contest_u u = None \<longrightarrow> contest (allProblems (update i u s) ! n) = contest (allProblems s ! n))
           \<and> (difficulty_u u = None \<longrightarrow>
                 difficulty (allProblems (update i u s) ! n) = difficulty (allProblems s ! n))
           \<and> (solved_u u = None \<longrightarrow> solved (allProblems (update i u s) ! n) = solved (allProblems s ! n))
           \<and> (starred_u u = None \<longrightarrow> starred (allProblems (update i u s) ! n) = starred (allProblems s ! n))
           \<and> (notes_u u = None \<longrightarrow> notes_p (allProblems (update i u s) ! n) = notes_p (allProblems s ! n))
           \<and> (tc_u u = None \<longrightarrow> tc (allProblems (update i u s) ! n) = tc (allProblems s ! n))
           \<and> (sc_u u = None \<longrightarrow> sc (allProblems (update i u s) ! n) = sc (allProblems s ! n))))"
proof -
  have len: "length (allProblems (update i u s)) = length (allProblems s)"
    by (simp add: update_def updateList_def Let_def)
  have nth: "allProblems (update i u s) ! n =
        (if id_p (allProblems s ! n) = i then spread (allProblems s ! n) u else allProblems s ! n)"
    if "n < length (allProblems s)" for n
    using that by (simp add: update_def updateList_def Let_def)
  show ?thesis
    using len spread_frame[of u] by (simp add: nth)
qed

theorem update_frame_witness:
  "(0::nat) < length (allProblems sample_state)
   \<and> id_p (allProblems sample_state ! 0) = ''1''
   \<and> title_u sample_patch = None
   \<and> title (allProblems (update ''1'' sample_patch sample_state) ! 0) = title (allProblems sample_state ! 0)
   \<and> (1::nat) < length (allProblems sample_state)
   \<and> id_p (allProblems sample_state ! 1) \<noteq> ''1''
   \<and> allProblems (update ''1'' sample_patch sample_state) ! 1 = allProblems sample_state ! 1"
proof -
  have i0: "(0::nat) < length (allProblems sample_state)"
    and i1: "(1::nat) < length (allProblems sample_state)"
    by (simp_all add: sample_state_def sample_merged_def)
  have a: "id_p (allProblems sample_state ! 0) = ''1''"
    and b: "id_p (allProblems sample_state ! 1) \<noteq> ''1''"
    by (simp_all add: sample_state_def sample_merged_def)
  have t: "title_u sample_patch = None"
    by (simp add: sample_patch_def)
  from update_frame[of "''1''" sample_patch sample_state] i0 i1 a b t show ?thesis
    by blast
qed


section \<open>Filter stage\<close>

lemma filterStage_code:
  "filterStage fs ps =
     filter (\<lambda>p. min_f fs \<le> toNumber (rating p) \<and> toNumber (rating p) \<le> max_f fs
                \<and> (solved_f fs \<longrightarrow> solved p)
                \<and> (starred_f fs \<longrightarrow> starred p)
                \<and> (query_f fs \<noteq> [] \<longrightarrow>
                     ci_includes (title p) (query_f fs)
                     \<or> includes_s (id_p p) (toLowerCase (query_f fs)))) ps"
  by (auto simp: filterStage_def Let_def ci_includes_def intro!: filter_cong)

text \<open>
  The filter stage keeps exactly the records that pass every active predicate; the
  query is matched, lower-cased, against the lower-cased title and against the
  identifier as it is stored. Where no identifier has a capital letter, that is the
  predicate of the specification.
\<close>

lemma filterStage_keeps:
  "filterStage fs ps =
     filter (\<lambda>p. min_f fs \<le> toNumber (rating p) \<and> toNumber (rating p) \<le> max_f fs
                \<and> (solved_f fs \<longrightarrow> solved p)
                \<and> (starred_f fs \<longrightarrow> starred p)
                \<and> (query_f fs \<noteq> [] \<longrightarrow>
                     ci_includes (title p) (query_f fs)
                     \<or> includes_s (id_p p) (toLowerCase (query_f fs)))) ps
   \<and> ((\<forall>p\<in>set ps. toLowerCase (id_p p) = id_p p) \<longrightarrow>
        filterStage fs ps = filter (spec_keeps fs) ps)"
proof (intro conjI impI)
  show "filterStage fs ps =
     filter (\<lambda>p. min_f fs \<le> toNumber (rating p) \<and> toNumber (rating p) \<le> max_f fs
                \<and> (solved_f fs \<longrightarrow> solved p)
                \<and> (starred_f fs \<longrightarrow> starred p)
                \<and> (query_f fs \<noteq> [] \<longrightarrow>
                     ci_includes (title p) (query_f fs)
                     \<or> includes_s (id_p p) (toLowerCase (query_f fs)))) ps"
    by (rule filterStage_code)
next
  assume low: "\<forall>p\<in>set ps. toLowerCase (id_p p) = id_p p"
  show "filterStage fs ps = filter (spec_keeps fs) ps"
    unfolding filterStage_code
    by (rule filter_cong) (auto simp: spec_keeps_def ci_includes_def low)
qed

text \<open>
  On a list merged from whole identifier numbers the identifiers are decimal strings,
  so there the filter stage is the predicate of the specification.
\<close>

lemma filterStage_merged:
  assumes "\<forall>r\<in>set raw. \<exists>i. ID r = Whole i"
  shows "filterStage fs (merge saved raw) = filter (spec_keeps fs) (merge saved raw)"
proof -
  have "toLowerCase (id_p p) = id_p p" if "p \<in> set (merge saved raw)" for p
  proof -
    from that obtain r where r: "r \<in> set raw" and p: "p = mergeOne (savedMap saved) r"
      by (auto simp: merge_def)
    from assms r obtain i where "ID r = Whole i" by blast
    then show ?thesis
      by (simp add: p mergeOne_fresh(1) String_num_def lower_String_int)
  qed
  then have "\<forall>p\<in>set (merge saved raw). toLowerCase (id_p p) = id_p p"
    by blast
  with filterStage_keeps[of fs "merge saved raw"] show ?thesis
    by blast
qed

text \<open>
  Claim C3. The match of the query against the identifier is not case-insensitive:
  the query is lower-cased, the identifier is not. A feed record whose \<^verbatim>\<open>ID\<close> is beyond
  the range of a double gets the identifier \<^verbatim>\<open>"Infinity"\<close>; the record is in the list
  and visible, and both the query \<^verbatim>\<open>"inf"\<close> and the query \<^verbatim>\<open>"Infinity"\<close> itself, which
  match the identifier up to case, leave nothing visible.
\<close>

theorem identifier_match_misses_capitals:
  "(case boot (Some [huge_id_raw]) None None of
      Inl e \<Rightarrow> False
    | Inr s0 \<Rightarrow>
        map id_p (allProblems s0) = [''Infinity''] \<and> map id_p (visible s0) = [''Infinity'']
        \<and> ci_includes ''Infinity'' (query_f inf_query_filters)
        \<and> (case step (SetFilters inf_query_filters) s0 of
              None \<Rightarrow> False | Some s \<Rightarrow> visible s = [])
        \<and> ci_includes ''Infinity'' (query_f Infinity_query_filters)
        \<and> (case step (SetFilters Infinity_query_filters) s0 of
              None \<Rightarrow> False | Some s \<Rightarrow> visible s = []))"
  by code_simp


section \<open>Sort stage\<close>

lemma mset_insertBy: "mset (insertBy c x xs) = add_mset x (mset xs)"
  by (induction xs) simp_all

lemma mset_sortBy: "mset (sortBy c xs) = mset xs"
  by (induction xs) (simp_all add: sortBy_def mset_insertBy)

lemma set_insertBy: "set (insertBy c x xs) = insert x (set xs)"
  by (induction xs) auto

lemma sorted_insertBy:
  assumes total: "\<And>x y. c x y \<le> 0 \<or> c y x \<le> 0"
    and trans: "\<And>x y z. c x y \<le> 0 \<Longrightarrow> c y z \<le> 0 \<Longrightarrow> c x z \<le> 0"
    and "sorted_wrt (\<lambda>x y. c x y \<le> 0) xs"
  shows "sorted_wrt (\<lambda>x y. c x y \<le> 0) (insertBy c a xs)"
  using assms(3)
proof (induction xs)
  case Nil
  then show ?case by simp
next
  case (Cons y ys)
  from Cons.prems have tail: "sorted_wrt (\<lambda>x y. c x y \<le> 0) ys"
    and head: "\<forall>z\<in>set ys. c y z \<le> 0"
    by simp_all
  show ?case
  proof (cases "c a y \<le> 0")
    case True
    have "c a z \<le> 0" if "z \<in> set ys" for z
    proof -
      from head that have "c y z \<le> 0" by blast
      with True show ?thesis by (rule trans)
    qed
    with True Cons.prems show ?thesis by simp
  next
    case False
    with total[of a y] have ya: "c y a \<le> 0" by blast
    have "sorted_wrt (\<lambda>x y. c x y \<le> 0) (insertBy c a ys)"
      by (rule Cons.IH[OF tail])
    with False ya head show ?thesis by (simp add: set_insertBy)
  qed
qed

lemma sorted_sortBy:
  assumes total: "\<And>x y. c x y \<le> 0 \<or> c y x \<le> 0"
    and trans: "\<And>x y z. c x y \<le> 0 \<Longrightarrow> c y z \<le> 0 \<Longrightarrow> c x z \<le> 0"
  shows "sorted_wrt (\<lambda>x y. c x y \<le> 0) (sortBy c xs)"
proof (induction xs)
  case Nil
  then show ?case by (simp add: sortBy_def)
next
  case (Cons a xs)
  have "sortBy c (a # xs) = insertBy c a (sortBy c xs)" by (simp add: sortBy_def)
  with sorted_insertBy[of c "sortBy c xs" a, OF total trans Cons.IH] show ?case by simp
qed

lemma stable_insertBy:
  assumes eq: "\<And>x y. c z x = 0 \<Longrightarrow> c z y = 0 \<Longrightarrow> c x y \<le> 0"
  shows "filter (\<lambda>y. c z y = 0) (insertBy c a xs) = filter (\<lambda>y. c z y = 0) (a # xs)"
proof (induction xs)
  case Nil
  then show ?case by simp
next
  case (Cons y ys)
  show ?case
  proof (cases "c a y \<le> 0")
    case True
    then show ?thesis by simp
  next
    case False
    with eq[of a y] have "c z a \<noteq> 0 \<or> c z y \<noteq> 0" by blast
    then show ?thesis
    proof
      assume "c z a \<noteq> 0"
      with False Cons.IH show ?thesis by simp
    next
      assume "c z y \<noteq> 0"
      with False Cons.IH show ?thesis by simp
    qed
  qed
qed

lemma stable_sortBy:
  assumes eq: "\<And>x y. c z x = 0 \<Longrightarrow> c z y = 0 \<Longrightarrow> c x y \<le> 0"
  shows "filter (\<lambda>y. c z y = 0) (sortBy c xs) = filter (\<lambda>y. c z y = 0) xs"
proof (induction xs)
  case Nil
  then show ?case by (simp add: sortBy_def)
next
  case (Cons a xs)
  have "filter (\<lambda>y. c z y = 0) (sortBy c (a # xs)) =
        filter (\<lambda>y. c z y = 0) (insertBy c a (sortBy c xs))"
    by (simp add: sortBy_def)
  also have "\<dots> = filter (\<lambda>y. c z y = 0) (a # sortBy c xs)"
    by (rule stable_insertBy) (rule eq)
  also have "\<dots> = filter (\<lambda>y. c z y = 0) (a # xs)"
    using Cons.IH by simp
  finally show ?case .
qed

lemma threeWay_le: "threeWay d A B \<le> 0 \<longleftrightarrow> (if d = asc then A \<le> B else B \<le> A)"
  by (auto simp: threeWay_def)

lemma threeWay_eq: "threeWay d A B = 0 \<longleftrightarrow> A = B"
  by (auto simp: threeWay_def)

lemma threeWay_asc: "threeWay asc A B = (if A < B then - 1 else if B < A then 1 else 0)"
  by (simp add: threeWay_def)

lemma threeWay_desc: "threeWay desc A B = - threeWay asc A B"
  by (simp add: threeWay_def)

lemma threeWay_total: "threeWay d A B \<le> 0 \<or> threeWay d B A \<le> 0"
  by (auto simp: threeWay_def)

lemma threeWay_trans:
  "threeWay d A B \<le> 0 \<Longrightarrow> threeWay d B C \<le> 0 \<Longrightarrow> threeWay d A C \<le> 0"
  by (cases d) (auto simp: threeWay_le)

lemma threeWay_equiv:
  "threeWay d C A = 0 \<Longrightarrow> threeWay d C B = 0 \<Longrightarrow> threeWay d A B \<le> 0"
  by (simp add: threeWay_eq threeWay_le)

lemma comparator_asc:
  "comparator k asc a b = (if key_less k a b then - 1 else if key_less k b a then 1 else 0)"
  by (cases k) (simp_all add: comparator_def key_less_def threeWay_asc)

lemma comparator_desc: "comparator k desc a b = - comparator k asc a b"
  by (cases k) (simp_all add: comparator_def threeWay_desc)

lemma comparator_total: "comparator k d x y \<le> 0 \<or> comparator k d y x \<le> 0"
  by (cases k; simp only: comparator_def key.case; rule threeWay_total)

lemma comparator_trans:
  "comparator k d x y \<le> 0 \<Longrightarrow> comparator k d y z \<le> 0 \<Longrightarrow> comparator k d x z \<le> 0"
  by (cases k; simp only: comparator_def key.case; erule (1) threeWay_trans)

lemma comparator_equiv:
  "comparator k d z x = 0 \<Longrightarrow> comparator k d z y = 0 \<Longrightarrow> comparator k d x y \<le> 0"
  by (cases k; simp only: comparator_def key.case; erule (1) threeWay_equiv)

lemma comparator_tie: "\<not> key_less k a b \<Longrightarrow> \<not> key_less k b a \<Longrightarrow> comparator k d a b = 0"
  by (cases d) (simp_all add: comparator_asc comparator_desc)

text \<open>As strings the labels are in another order than their ranks.\<close>

lemma labels_lexical_order: "(''Easy'' :: string) < ''Hard'' \<and> (''Hard'' :: string) < ''Medium''"
  by code_simp

text \<open>
  Claim C4. With a sort key set, the comparator orders two records by the key: by
  the rank Easy 1, Medium 2, Hard 3 for the difficulty, by the order of the field's
  values for every other key; descending is the negation of ascending; records with
  equal keys compare as 0. The sorted list has the records of the filtered list, in
  an order the comparator agrees with, and records that compare as 0 keep the order
  they had in the filtered list.
\<close>

theorem sortStage_sorted_stable:
  "difficultyRank ''Easy'' = 1 \<and> difficultyRank ''Medium'' = 2 \<and> difficultyRank ''Hard'' = 3
   \<and> comparator k asc a b = (if key_less k a b then - 1 else if key_less k b a then 1 else 0)
   \<and> comparator k desc a b = - comparator k asc a b
   \<and> (\<not> key_less k a b \<and> \<not> key_less k b a \<longrightarrow> comparator k d a b = 0)
   \<and> mset (sortStage \<lparr> key = Some k, dir = d \<rparr> l) = mset l
   \<and> (\<forall>i j. i < j \<and> j < length l \<longrightarrow>
         comparator k d (sortStage \<lparr> key = Some k, dir = d \<rparr> l ! i)
                        (sortStage \<lparr> key = Some k, dir = d \<rparr> l ! j) \<le> 0)
   \<and> (\<forall>x. filter (\<lambda>y. comparator k d x y = 0) (sortStage \<lparr> key = Some k, dir = d \<rparr> l)
          = filter (\<lambda>y. comparator k d x y = 0) l)"
proof -
  let ?c = "comparator k d"
  have out: "sortStage \<lparr> key = Some k, dir = d \<rparr> l = sortBy ?c l"
    by (simp add: sortStage_def)
  have len: "length (sortBy ?c l) = length l"
    using mset_sortBy[of ?c l] by (metis size_mset)
  have "sorted_wrt (\<lambda>x y. ?c x y \<le> 0) (sortBy ?c l)"
  proof (rule sorted_sortBy)
    show "?c x y \<le> 0 \<or> ?c y x \<le> 0" for x y
      by (rule comparator_total)
    show "?c x y \<le> 0 \<Longrightarrow> ?c y z \<le> 0 \<Longrightarrow> ?c x z \<le> 0" for x y z
      by (rule comparator_trans)
  qed
  then have sorted: "\<forall>i j. i < j \<and> j < length l \<longrightarrow> ?c (sortBy ?c l ! i) (sortBy ?c l ! j) \<le> 0"
    by (simp add: sorted_wrt_iff_nth_less len)
  have stable: "filter (\<lambda>y. ?c x y = 0) (sortBy ?c l) = filter (\<lambda>y. ?c x y = 0) l" for x
    by (rule stable_sortBy) (erule (1) comparator_equiv)
  have rank: "difficultyRank ''Easy'' = 1 \<and> difficultyRank ''Medium'' = 2 \<and> difficultyRank ''Hard'' = 3"
    by (simp add: difficultyRank_def)
  have tie: "\<not> key_less k a b \<and> \<not> key_less k b a \<longrightarrow> comparator k d a b = 0"
    using comparator_tie[of k a b d] by blast
  show ?thesis
    unfolding out
    using rank comparator_asc[of k a b] comparator_desc[of k a b] tie mset_sortBy[of ?c l] sorted stable
    by blast
qed

theorem sortStage_sorted_stable_witness:
  "\<not> key_less K_difficulty (sample_list ! 0) (sample_list ! 3)
   \<and> \<not> key_less K_difficulty (sample_list ! 3) (sample_list ! 0)
   \<and> comparator K_difficulty asc (sample_list ! 0) (sample_list ! 3) = 0
   \<and> (0::nat) < 3 \<and> (3::nat) < length sample_list
   \<and> comparator K_difficulty asc
        (sortStage \<lparr> key = Some K_difficulty, dir = asc \<rparr> sample_list ! 0)
        (sortStage \<lparr> key = Some K_difficulty, dir = asc \<rparr> sample_list ! 3) \<le> 0
   \<and> sortStage \<lparr> key = Some K_difficulty, dir = asc \<rparr> sample_list =
       [tagged ''2'' ''Easy'', tagged ''3'' ''Medium'', tagged ''4'' ''Medium'', tagged ''1'' ''Hard'']"
proof -
  have a: "\<not> key_less K_difficulty (sample_list ! 0) (sample_list ! 3)"
    and b: "\<not> key_less K_difficulty (sample_list ! 3) (sample_list ! 0)"
    by code_simp+
  have i: "(0::nat) < 3 \<and> (3::nat) < length sample_list"
    by (simp add: sample_list_def)
  have r: "sortStage \<lparr> key = Some K_difficulty, dir = asc \<rparr> sample_list =
       [tagged ''2'' ''Easy'', tagged ''3'' ''Medium'', tagged ''4'' ''Medium'', tagged ''1'' ''Hard'']"
    by code_simp
  from sortStage_sorted_stable[of K_difficulty "sample_list ! 0" "sample_list ! 3" asc sample_list]
    a b i
  have "comparator K_difficulty asc (sample_list ! 0) (sample_list ! 3) = 0
    \<and> comparator K_difficulty asc
        (sortStage \<lparr> key = Some K_difficulty, dir = asc \<rparr> sample_list ! 0)
        (sortStage \<lparr> key = Some K_difficulty, dir = asc \<rparr> sample_list ! 3) \<le> 0"
    by blast
  with a b i r show ?thesis by blast
qed


section \<open>Pagination\<close>

lemma pages_pos: "visible s \<noteq> [] \<Longrightarrow> 0 < pageSize s \<Longrightarrow> 1 \<le> pages s"
proof -
  assume a: "visible s \<noteq> []" and b: "0 < pageSize s"
  have "(0::rat) < of_nat (length (visible s)) / of_nat (pageSize s)"
    using a b by simp
  then have "0 < pages s"
    unfolding pages_def by (simp only: zero_less_ceiling)
  then show ?thesis by simp
qed

lemma pages_empty: "visible s = [] \<Longrightarrow> pages s = 0"
  by (simp add: pages_def)

lemma effect_in_range: "0 < pageSize s \<Longrightarrow> pageInRange (effect s)"
  using pages_pos[of "effect s"] by (auto simp: pageInRange_def effect_def)

lemma pageSize_effect: "pageSize (effect s) = pageSize s"
  by (simp add: effect_def)

lemma pageSize_update: "pageSize (update i u s) = pageSize s"
  by (simp add: update_def Let_def)

lemma fetchAndMerge_cells:
  assumes "fetchAndMerge net s = Inr s'"
  shows "pageSize s' = pageSize s \<and> \<not> loading s'"
  using assms by (auto simp: fetchAndMerge_def Let_def split: option.splits sum.splits)

lemma loadData_cells:
  assumes "loadData net1 net2 s = Inr s'"
  shows "pageSize s' = pageSize s \<and> \<not> loading s'"
proof -
  have tf: "pageSize s' = pageSize s \<and> \<not> loading s'" if "tryFetch net1 net2 s = Inr s'"
    using that fetchAndMerge_cells by (auto simp: tryFetch_def split: sum.splits)
  from assms show ?thesis
    using tf fetchAndMerge_cells
    by (auto simp: loadData_def split: option.splits item.splits)
qed

lemma boot_in_range:
  assumes "boot net1 net2 st = Inr s"
  shows "pageInRange s \<and> pageSize s = 25 \<and> \<not> loading s"
proof -
  from assms obtain s0 where l: "loadData net1 net2 (initial st) = Inr s0" and s: "s = effect s0"
    by (auto simp: boot_def split: sum.splits)
  from loadData_cells[OF l] have c: "pageSize s0 = 25" "\<not> loading s0"
    by (simp_all add: initial_def)
  with effect_in_range[of s0] show ?thesis
    by (simp add: s pageSize_effect effect_def)
qed

text \<open>
  Every event but the selection of a page size keeps the page index in range, and so
  does every run of such events from the mounted component.
\<close>

lemma step_keeps_page_range:
  assumes "step e s = Some s'" and "\<not> resizes e" and "0 < pageSize s" and "pageInRange s"
  shows "pageInRange s' \<and> 0 < pageSize s'"
proof (cases e)
  case (SetFilters f)
  with assms(1) have "s' = effect (s\<lparr> filters := f \<rparr>)"
    by (simp add: step_def split: if_splits)
  with assms(3) effect_in_range[of "s\<lparr> filters := f \<rparr>"] show ?thesis
    by (simp add: pageSize_effect)
next
  case (ToggleSort k)
  with assms(1) obtain sp where "s' = effect (s\<lparr> sort_st := sp \<rparr>)"
    by (auto simp: step_def split: if_splits)
  with assms(3) effect_in_range[of "s\<lparr> sort_st := sp \<rparr>"] show ?thesis
    by (simp add: pageSize_effect)
next
  case (Update i u)
  with assms(1) have "s' = effect (update i u s)"
    by (simp add: step_def split: if_splits)
  with assms(3) effect_in_range[of "update i u s"] show ?thesis
    by (simp add: pageSize_effect pageSize_update)
next
  case (SelectPageSize opt)
  with assms(2) show ?thesis by (simp add: resizes_def)
next
  case First
  with assms(1) have s': "s' = s\<lparr> page := 1 \<rparr>" and p: "1 < pages s"
    by (auto simp: step_def split: if_splits)
  have "pages s' = pages s" by (simp add: s' pages_def)
  with p assms(3) show ?thesis by (simp add: s' pageInRange_def)
next
  case Prev
  with assms(1) have s': "s' = s\<lparr> page := page s - 1 \<rparr>" and p: "1 < pages s" and q: "page s \<noteq> 1"
    by (auto simp: step_def split: if_splits)
  have eq: "pages s' = pages s" by (simp add: s' pages_def)
  from p pages_empty[of s] have "visible s \<noteq> []" by auto
  with assms(4) have "1 \<le> page s \<and> page s \<le> pages s" by (simp add: pageInRange_def)
  with q eq assms(3) show ?thesis by (simp add: s' pageInRange_def)
next
  case Next
  with assms(1) have s': "s' = s\<lparr> page := page s + 1 \<rparr>" and p: "1 < pages s" and q: "page s \<noteq> pages s"
    by (auto simp: step_def split: if_splits)
  have eq: "pages s' = pages s" by (simp add: s' pages_def)
  from p pages_empty[of s] have "visible s \<noteq> []" by auto
  with assms(4) have "1 \<le> page s \<and> page s \<le> pages s" by (simp add: pageInRange_def)
  with q eq assms(3) show ?thesis by (simp add: s' pageInRange_def)
next
  case Last
  with assms(1) have s': "s' = s\<lparr> page := pages s \<rparr>" and p: "1 < pages s"
    by (auto simp: step_def split: if_splits)
  have eq: "pages s' = pages s" by (simp add: s' pages_def)
  with p assms(3) show ?thesis by (simp add: s' pageInRange_def)
qed

lemma run_keeps_page_range:
  assumes "run es s = Some s'" and "\<forall>e\<in>set es. \<not> resizes e" and "0 < pageSize s"
    and "pageInRange s"
  shows "pageInRange s'"
  using assms
proof (induction es arbitrary: s)
  case Nil
  then show ?case by simp
next
  case (Cons e es)
  from Cons.prems(1) obtain s1 where st: "step e s = Some s1" and rn: "run es s1 = Some s'"
    by (auto split: option.splits)
  from step_keeps_page_range[OF st] Cons.prems have "pageInRange s1 \<and> 0 < pageSize s1"
    by simp
  with Cons.IH[OF rn] Cons.prems(2) show ?case by simp
qed

lemma page_in_range_without_resize:
  assumes "boot net1 net2 st = Inr s0" and "run es s0 = Some s" and "\<forall>e\<in>set es. \<not> resizes e"
  shows "pageInRange s"
proof -
  from boot_in_range[OF assms(1)] have "pageInRange s0" and "0 < pageSize s0"
    by simp_all
  with run_keeps_page_range[OF assms(2,3)] show ?thesis by blast
qed

text \<open>
  Claim C7. The page index leaves its range when the page size changes: with 26
  visible records and 25 per page, the second page is reached with the next-page
  button; selecting 50 per page then leaves one page, and the page index stays 2. The
  slice is empty, and the pager, rendered for more than one page only, is gone.
\<close>

theorem page_out_of_range_after_resize:
  "(case boot (Some many_raw) None None of
      Inl e \<Rightarrow> False
    | Inr s0 \<Rightarrow>
        (case run [Next, SelectPageSize Opt50] s0 of
           None \<Rightarrow> False
         | Some s \<Rightarrow> length (visible s) = 26 \<and> pageSize s = 50 \<and> pages s = 1 \<and> page s = 2
                     \<and> slice s = []
                     \<and> step First s = None \<and> step Prev s = None))"
  by code_simp

end
